theory Spec2Isabelle
  imports Main
begin

section \<open>The store's schema (supabase/migrations/0001_init.sql)\<close>

text \<open>
  The tables of the migration, reduced to the columns that the functions and triggers
  read or write. The timestamp columns (created_at, placed_at, updated_at) and the
  descriptive product columns (sku, name, description, currency) are left out, and with
  them the trigger function set_updated_at, which writes updated_at only.

  A uuid is an abstract identifier. A table with a primary key that the code addresses by
  that key (products, orders) is a map from the key to the row; a table that the code
  scans (customers, order_items, mail_queue) is the list of its rows.
\<close>

type_synonym uuid = nat

datatype order_status = Pending | Paid | Shipped | Delivered | Canceled

record customer =
  c_id :: uuid
  user_id :: "uuid option"
  full_name :: string
  email :: string

record product =
  price_cents :: int
  stock :: int
  active :: bool

record order =
  customer_id :: uuid
  status :: order_status
  total_cents :: int

record order_item =
  oi_order_id :: uuid
  oi_product_id :: uuid
  quantity :: int
  unit_price_cents :: int

record queue_row =
  q_id :: nat
  q_order_id :: uuid
  to_email :: string
  payload :: "(string \<times> string) list"
  q_status :: string
  processed_at :: "nat option"

record db =
  customers :: "customer list"
  products :: "uuid \<rightharpoonup> product"
  orders :: "uuid \<rightharpoonup> order"
  order_items :: "order_item list"
  mail_queue :: "queue_row list"
  mail_queue_seq :: nat

text \<open>
  Every \<open>raise exception\<close> of the migration is a constructor, in the order of the file,
  followed by the errors that PostgreSQL itself raises on the statements of the model:
  a text that does not cast, an integer out of the range of its type, and a violated
  check, foreign-key, primary-key or not-null constraint.
\<close>

datatype error =
    NotAuthenticated
  | CustomerNotFound
  | InvalidQuantity
  | ProductUnavailable
  | InsufficientStock
  | OrderNotFound
  | Forbidden
  | InvalidTextRepresentation
  | NumericValueOutOfRange
  | CheckViolation
  | ForeignKeyViolation
  | UniqueViolation
  | NotNullViolation

section \<open>Order status: set_order_status and the paid trigger\<close>

text \<open>
  enqueue_order_confirmation (lines 256-272), the row trigger after an update of
  orders.status. \<open>v_oid\<close> is new.id. The select into of a customer that does not exist
  leaves v_email null, and the insert then violates the not-null constraint of to_email.
  The identity column of mail_queue takes the next value of its sequence.
\<close>

definition enqueue_order_confirmation :: "db \<Rightarrow> uuid \<Rightarrow> order \<Rightarrow> order \<Rightarrow> error + db" where
  "enqueue_order_confirmation d v_oid new old =
     (if status new = Paid \<and> status old \<noteq> Paid then
        (case find (\<lambda>c. c_id c = customer_id new) (customers d) of
           None \<Rightarrow> Inl NotNullViolation
         | Some c \<Rightarrow>
             Inr (d\<lparr>mail_queue := mail_queue d @
                      [\<lparr>q_id = mail_queue_seq d, q_order_id = v_oid, to_email = email c,
                        payload = [(''customer_name'', full_name c)],
                        q_status = ''pending'', processed_at = None\<rparr>],
                    mail_queue_seq := Suc (mail_queue_seq d)\<rparr>))
      else Inr d)"

text \<open>
  The statement of line 235, \<open>update orders set status = p_next where id = p_order_id\<close>,
  with its row trigger. It names the status column, so the trigger fires for the row
  whether or not the value changes.
\<close>

definition update_order_status :: "db \<Rightarrow> uuid \<Rightarrow> order_status \<Rightarrow> error + db" where
  "update_order_status d p_order_id p_next =
     (case orders d p_order_id of
        None \<Rightarrow> Inr d
      | Some old \<Rightarrow>
          (let new = old\<lparr>status := p_next\<rparr> in
           enqueue_order_confirmation
             (d\<lparr>orders := (orders d)(p_order_id \<mapsto> new)\<rparr>) p_order_id new old))"

text \<open>
  The condition of line 229: the caller is authenticated and a customer row links the
  order's customer to the caller.
\<close>

definition is_owner :: "db \<Rightarrow> uuid option \<Rightarrow> uuid \<Rightarrow> bool" where
  "is_owner d v_user v_cust =
     (v_user \<noteq> None \<and> list_ex (\<lambda>c. c_id c = v_cust \<and> user_id c = v_user) (customers d))"

text \<open>
  set_order_status (lines 216-237). \<open>v_user\<close> is auth.uid(). A raised exception leaves
  no state behind: the function has no exception block, so the error reaches the calling
  statement and PostgreSQL undoes what the statement did.
\<close>

definition set_order_status :: "db \<Rightarrow> uuid option \<Rightarrow> uuid \<Rightarrow> order_status \<Rightarrow> error + db" where
  "set_order_status d v_user p_order_id p_next =
     (case orders d p_order_id of
        None \<Rightarrow> Inl OrderNotFound
      | Some v_ord \<Rightarrow>
          (if is_owner d v_user (customer_id v_ord) then
             (if p_next \<noteq> Canceled \<or> status v_ord \<noteq> Pending then Inl Forbidden
              else update_order_status d p_order_id p_next)
           else update_order_status d p_order_id p_next))"

section \<open>Order totals: compute_order_total and its trigger\<close>

text \<open>
  The columns are of type integer, four bytes: a product, or a cast from bigint, that
  leaves the range raises an error in PostgreSQL instead of wrapping.
\<close>

definition int4 :: "int \<Rightarrow> bool" where
  "int4 v = (- 2147483648 \<le> v \<and> v \<le> 2147483647)"

definition int4_mul :: "int \<Rightarrow> int \<Rightarrow> error + int" where
  "int4_mul a b = (if int4 (a * b) then Inr (a * b) else Inl NumericValueOutOfRange)"

text \<open>
  \<open>sum(oi.quantity * oi.unit_price_cents)\<close> over the given rows, with the coalesce to 0
  of line 122: each product is an integer multiplication, the sum is a bigint (its own
  overflow would take more than four thousand million rows and is not modelled).
\<close>

fun sum_lines :: "order_item list \<Rightarrow> error + int" where
  "sum_lines [] = Inr 0"
| "sum_lines (oi # ois) =
     (case int4_mul (quantity oi) (unit_price_cents oi) of
        Inl e \<Rightarrow> Inl e
      | Inr v \<Rightarrow> (case sum_lines ois of Inl e \<Rightarrow> Inl e | Inr s \<Rightarrow> Inr (v + s)))"

text \<open>compute_order_total (lines 117-125); the result is cast to the integer it returns.\<close>

definition compute_order_total :: "db \<Rightarrow> uuid \<Rightarrow> error + int" where
  "compute_order_total d p_order_id =
     (case sum_lines (filter (\<lambda>oi. oi_order_id oi = p_order_id) (order_items d)) of
        Inl e \<Rightarrow> Inl e
      | Inr s \<Rightarrow> (if int4 s then Inr s else Inl NumericValueOutOfRange))"

text \<open>
  update_order_total (lines 130-140), the row trigger after insert, update or delete on
  order_items. \<open>new\<close> is absent on delete and \<open>old\<close> on insert. The update of orders
  touches the one row whose key is \<open>coalesce(new.order_id, old.order_id)\<close>, evaluates
  compute_order_total for it, and is subject to the check total_cents >= 0.
\<close>

definition update_order_total :: "db \<Rightarrow> order_item option \<Rightarrow> order_item option \<Rightarrow> error + db" where
  "update_order_total d new old =
     (case (case new of Some n \<Rightarrow> Some (oi_order_id n) | None \<Rightarrow> map_option oi_order_id old) of
        None \<Rightarrow> Inr d
      | Some k \<Rightarrow>
          (case orders d k of
             None \<Rightarrow> Inr d
           | Some v_ord \<Rightarrow>
               (case compute_order_total d k of
                  Inl e \<Rightarrow> Inl e
                | Inr t \<Rightarrow>
                    (if 0 \<le> t
                     then Inr (d\<lparr>orders := (orders d)(k \<mapsto> v_ord\<lparr>total_cents := t\<rparr>)\<rparr>)
                     else Inl CheckViolation))))"

text \<open>
  The three statements on order_items that fire the trigger, each on one row. The checks
  of the table (quantity > 0, unit_price_cents >= 0) and its two foreign keys are tested
  on the row written. A row of the table is addressed by its position.
\<close>

definition row_ok :: "db \<Rightarrow> order_item \<Rightarrow> error option" where
  "row_ok d r =
     (if \<not> (0 < quantity r \<and> 0 \<le> unit_price_cents r) then Some CheckViolation
      else if orders d (oi_order_id r) = None \<or> products d (oi_product_id r) = None
      then Some ForeignKeyViolation
      else None)"

definition insert_order_item :: "db \<Rightarrow> order_item \<Rightarrow> error + db" where
  "insert_order_item d r =
     (case row_ok d r of
        Some e \<Rightarrow> Inl e
      | None \<Rightarrow> update_order_total (d\<lparr>order_items := order_items d @ [r]\<rparr>) (Some r) None)"

definition update_order_item :: "db \<Rightarrow> nat \<Rightarrow> order_item \<Rightarrow> error + db" where
  "update_order_item d i r =
     (if length (order_items d) \<le> i then Inr d
      else (case row_ok d r of
              Some e \<Rightarrow> Inl e
            | None \<Rightarrow>
                update_order_total (d\<lparr>order_items := (order_items d)[i := r]\<rparr>)
                  (Some r) (Some (order_items d ! i))))"

definition delete_order_item :: "db \<Rightarrow> nat \<Rightarrow> error + db" where
  "delete_order_item d i =
     (if length (order_items d) \<le> i then Inr d
      else update_order_total
             (d\<lparr>order_items := take i (order_items d) @ drop (Suc i) (order_items d)\<rparr>)
             None (Some (order_items d ! i)))"

section \<open>place_order\<close>

text \<open>
  One element of the jsonb array. A field read with \<open>->>\<close> is null (the key is missing
  or holds JSON null), or a text that is not of the syntax of the target type, or a text
  of that syntax with its value. A number that is written as an integer is a value
  whatever its size: the cast to integer decides on its range.
\<close>

datatype 'a jfield = JNull | JInvalid | JValue 'a

record item =
  j_product_id :: "uuid jfield"
  j_quantity :: "int jfield"

text \<open>Line 180, \<open>(v_item->>'product_id')::uuid\<close>.\<close>

definition cast_uuid :: "uuid jfield \<Rightarrow> error + uuid option" where
  "cast_uuid f =
     (case f of
        JNull \<Rightarrow> Inr None
      | JInvalid \<Rightarrow> Inl InvalidTextRepresentation
      | JValue v \<Rightarrow> Inr (Some v))"

text \<open>
  Line 181, \<open>(v_item->>'quantity')::int\<close>: an integer outside the four bytes of the
  type is rejected by the cast, before any check of the loop.
\<close>

definition cast_int :: "int jfield \<Rightarrow> error + int option" where
  "cast_int f =
     (case f of
        JNull \<Rightarrow> Inr None
      | JInvalid \<Rightarrow> Inl InvalidTextRepresentation
      | JValue v \<Rightarrow> (if int4 v then Inr (Some v) else Inl NumericValueOutOfRange))"

text \<open>Lines 187-189: the price of the product, when the product exists and is active.\<close>

definition select_price :: "db \<Rightarrow> uuid \<Rightarrow> int option" where
  "select_price d v_product_id =
     (case products d v_product_id of
        None \<Rightarrow> None
      | Some p \<Rightarrow> (if active p then Some (price_cents p) else None))"

text \<open>
  Lines 196-198: the conditional update of the stock; None is \<open>not found\<close>. The row
  written has stock >= 0 by the condition, so the check of the column cannot fail.
\<close>

definition reserve_stock :: "db \<Rightarrow> uuid \<Rightarrow> int \<Rightarrow> db option" where
  "reserve_stock d v_product_id v_qty =
     (case products d v_product_id of
        None \<Rightarrow> None
      | Some p \<Rightarrow>
          (if v_qty \<le> stock p
           then Some (d\<lparr>products := (products d)(v_product_id \<mapsto> p\<lparr>stock := stock p - v_qty\<rparr>)\<rparr>)
           else None))"

text \<open>The body of the loop (lines 180-205). A null product id matches no product.\<close>

definition place_item :: "db \<Rightarrow> uuid \<Rightarrow> item \<Rightarrow> error + db" where
  "place_item d v_order_id v_item =
     (case cast_uuid (j_product_id v_item) of
        Inl e \<Rightarrow> Inl e
      | Inr v_product_id \<Rightarrow>
     (case cast_int (j_quantity v_item) of
        Inl e \<Rightarrow> Inl e
      | Inr v_qty \<Rightarrow>
     (case v_qty of
        None \<Rightarrow> Inl InvalidQuantity
      | Some q \<Rightarrow>
     (if q \<le> 0 then Inl InvalidQuantity
      else
     (case v_product_id of
        None \<Rightarrow> Inl ProductUnavailable
      | Some pid \<Rightarrow>
     (case select_price d pid of
        None \<Rightarrow> Inl ProductUnavailable
      | Some v_price \<Rightarrow>
     (case reserve_stock d pid q of
        None \<Rightarrow> Inl InsufficientStock
      | Some d1 \<Rightarrow>
          insert_order_item d1
            \<lparr>oi_order_id = v_order_id, oi_product_id = pid,
             quantity = q, unit_price_cents = v_price\<rparr>)))))))"

fun place_items :: "db \<Rightarrow> uuid \<Rightarrow> item list \<Rightarrow> error + db" where
  "place_items d v_order_id [] = Inr d"
| "place_items d v_order_id (v_item # rest) =
     (case place_item d v_order_id v_item of
        Inl e \<Rightarrow> Inl e
      | Inr d1 \<Rightarrow> place_items d1 v_order_id rest)"

text \<open>
  place_order (lines 151-210). \<open>v_user_id\<close> is auth.uid(), \<open>new_id\<close> the value that
  gen_random_uuid() draws for the new order, \<open>items\<close> the elements of the jsonb array.
  The new row has the defaults of the table: pending, total 0.
\<close>

definition place_order :: "db \<Rightarrow> uuid \<Rightarrow> uuid option \<Rightarrow> item list \<Rightarrow> error + db \<times> uuid" where
  "place_order d new_id v_user_id items =
     (case v_user_id of
        None \<Rightarrow> Inl NotAuthenticated
      | Some u \<Rightarrow>
     (case find (\<lambda>c. user_id c = Some u) (customers d) of
        None \<Rightarrow> Inl CustomerNotFound
      | Some c \<Rightarrow>
     (case orders d new_id of
        Some _ \<Rightarrow> Inl UniqueViolation
      | None \<Rightarrow>
     (case place_items
             (d\<lparr>orders := (orders d)(new_id \<mapsto>
                   \<lparr>customer_id = c_id c, status = Pending, total_cents = 0\<rparr>)\<rparr>)
             new_id items of
        Inl e \<Rightarrow> Inl e
      | Inr d2 \<Rightarrow> Inr (d2, new_id)))))"

text \<open>
  A call as a client issues it: one statement, hence one transaction. place_order has no
  exception block and no commit, so an error undoes every write of the call and the
  database is the one before it.
\<close>

record call =
  gen_uuid :: uuid
  caller :: "uuid option"
  call_items :: "item list"

definition rpc_place_order :: "db \<Rightarrow> call \<Rightarrow> db \<times> (error + uuid)" where
  "rpc_place_order d c =
     (case place_order d (gen_uuid c) (caller c) (call_items c) of
        Inl e \<Rightarrow> (d, Inl e)
      | Inr (d', v_order_id) \<Rightarrow> (d', Inr v_order_id))"

fun run_calls :: "db \<Rightarrow> call list \<Rightarrow> db" where
  "run_calls d [] = d"
| "run_calls d (c # cs) = run_calls (fst (rpc_place_order d c)) cs"

text \<open>
  What a list of items asks of one product, and what the successful calls of a sequence
  reserved of it.
\<close>

fun requested :: "uuid \<Rightarrow> item list \<Rightarrow> int" where
  "requested pid [] = 0"
| "requested pid (v_item # rest) =
     (if j_product_id v_item = JValue pid
      then (case j_quantity v_item of JValue q \<Rightarrow> q | _ \<Rightarrow> 0)
      else 0) + requested pid rest"

fun reserved :: "db \<Rightarrow> uuid \<Rightarrow> call list \<Rightarrow> int" where
  "reserved d pid [] = 0"
| "reserved d pid (c # cs) =
     (case snd (rpc_place_order d c) of
        Inl e \<Rightarrow> 0
      | Inr v_order_id \<Rightarrow> requested pid (call_items c))
     + reserved (fst (rpc_place_order d c)) pid cs"

text \<open>
  The statement of the catalog administration that changes a price,
  \<open>update products set price_cents = v where id = pid\<close>, under the check of the column.
  No trigger of products reads or writes another table.
\<close>

definition update_product_price :: "db \<Rightarrow> uuid \<Rightarrow> int \<Rightarrow> error + db" where
  "update_product_price d pid v =
     (case products d pid of
        None \<Rightarrow> Inr d
      | Some p \<Rightarrow>
          (if 0 \<le> v then Inr (d\<lparr>products := (products d)(pid \<mapsto> p\<lparr>price_cents := v\<rparr>)\<rparr>)
           else Inl CheckViolation))"

text \<open>
  The order of the checks as the specification words it: the first violated
  precondition of one item, whose fields are a product reference and a quantity.
\<close>

definition spec_first_violation :: "db \<Rightarrow> uuid option \<Rightarrow> int option \<Rightarrow> error option" where
  "spec_first_violation d pid_opt qty_opt =
     (case qty_opt of
        None \<Rightarrow> Some InvalidQuantity
      | Some q \<Rightarrow>
          (if q \<le> 0 then Some InvalidQuantity
           else (case pid_opt of
                   None \<Rightarrow> Some ProductUnavailable
                 | Some pid \<Rightarrow>
                     (case products d pid of
                        None \<Rightarrow> Some ProductUnavailable
                      | Some p \<Rightarrow>
                          (if \<not> active p then Some ProductUnavailable
                           else if stock p < q then Some InsufficientStock
                           else None)))))"

definition field_of :: "'a option \<Rightarrow> 'a jfield" where
  "field_of v = (case v of None \<Rightarrow> JNull | Some x \<Rightarrow> JValue x)"

text \<open>A quantity that is absent, or present and within the range of an integer.\<close>

definition casts :: "int option \<Rightarrow> bool" where
  "casts qty_opt = (case qty_opt of None \<Rightarrow> True | Some q \<Rightarrow> int4 q)"

section \<open>The notification drain (functions/send-order-confirmation/index.ts)\<close>

text \<open>
  What the handler meets outside itself: whether the select of line 41 returns an error
  (and its message), whether RESEND_API_KEY is set, whether the n-th request to the mail
  API goes through without throwing (fetch succeeds, the answer is ok and parses),
  whether the database executes the update request of the n-th iteration, and the clock
  at the n-th update. The subject and the html are built from the order id and the
  customer name, so the request is given by the address and these two.
\<close>

record env =
  select_error :: "string option"
  resend_api_key :: bool
  resend :: "nat \<Rightarrow> string \<Rightarrow> uuid \<Rightarrow> string \<Rightarrow> bool"
  update_ok :: "nat \<Rightarrow> bool"
  clock :: "nat \<Rightarrow> nat"

record response =
  http_status :: nat
  body :: string

text \<open>sendEmail (lines 15-33): True when it returns, False when it throws.\<close>

definition sendEmail :: "env \<Rightarrow> nat \<Rightarrow> string \<Rightarrow> uuid \<Rightarrow> string \<Rightarrow> bool" where
  "sendEmail e n to v_order_id nomeCliente =
     (if \<not> resend_api_key e then True else resend e n to v_order_id nomeCliente)"

text \<open>
  The effect on the table of the update of lines 64-67 and 70-73, when the database
  executes it: status and processed_at of the rows with the given id.
\<close>

definition mark :: "nat \<Rightarrow> string \<Rightarrow> nat \<Rightarrow> queue_row list \<Rightarrow> queue_row list" where
  "mark rid st t q =
     map (\<lambda>r. if q_id r = rid then r\<lparr>q_status := st, processed_at := Some t\<rparr> else r) q"

text \<open>
  The update request of iteration n as the handler issues it. The client does not throw
  when the request fails: it returns the failure as a value, and the handler reads no
  result of the update. A request that fails leaves the table as it is, and the handler
  goes on.
\<close>

definition update_row ::
  "env \<Rightarrow> nat \<Rightarrow> nat \<Rightarrow> string \<Rightarrow> queue_row list \<Rightarrow> queue_row list" where
  "update_row e n rid st q = (if update_ok e n then mark rid st (clock e n) q else q)"

text \<open>Line 54.\<close>

definition nomeCliente :: "queue_row \<Rightarrow> string" where
  "nomeCliente row =
     (case map_of (payload row) ''customer_name'' of None \<Rightarrow> ''Cliente'' | Some v \<Rightarrow> v)"

text \<open>
  The loop of lines 52-75 over the rows selected, with the number of the iteration: the
  try branch marks the row sent, the catch branch marks it error.
\<close>

fun process :: "env \<Rightarrow> nat \<Rightarrow> queue_row list \<Rightarrow> queue_row list \<Rightarrow> queue_row list" where
  "process e n [] q = q"
| "process e n (row # rows) q =
     process e (Suc n) rows
       (if sendEmail e n (to_email row) (q_order_id row) (nomeCliente row)
        then update_row e n (q_id row) ''sent'' q
        else update_row e n (q_id row) ''error'' q)"

text \<open>Lines 41-45: the pending rows, ten at most.\<close>

definition pendentes :: "queue_row list \<Rightarrow> queue_row list" where
  "pendentes q = take 10 (filter (\<lambda>r. q_status r = ''pending'') q)"

text \<open>handler (lines 36-78): the queue it leaves and its response.\<close>

definition handler :: "env \<Rightarrow> queue_row list \<Rightarrow> queue_row list \<times> response" where
  "handler e q =
     (case select_error e of
        Some msg \<Rightarrow> (q, \<lparr>http_status = 500, body = msg\<rparr>)
      | None \<Rightarrow>
          (if pendentes q = [] then (q, \<lparr>http_status = 200, body = ''Nenhum e-mail pendente.''\<rparr>)
           else (process e 0 (pendentes q) q,
                 \<lparr>http_status = 200, body = ''E-mails processados com sucesso!''\<rparr>)))"

text \<open>The status that the loop writes for a row at iteration n.\<close>

definition outcome :: "env \<Rightarrow> nat \<Rightarrow> queue_row \<Rightarrow> string" where
  "outcome e n row =
     (if sendEmail e n (to_email row) (q_order_id row) (nomeCliente row) then ''sent'' else ''error'')"

section \<open>Consistency of the stored totals\<close>

text \<open>
  The stored total of order k is the one that compute_order_total returns, and every
  order item belongs to an order (the foreign key of order_items.order_id).
\<close>

definition stored_total_ok :: "db \<Rightarrow> uuid \<Rightarrow> bool" where
  "stored_total_ok d k =
     (case orders d k of
        None \<Rightarrow> True
      | Some v_ord \<Rightarrow> compute_order_total d k = Inr (total_cents v_ord))"

definition consistent :: "db \<Rightarrow> bool" where
  "consistent d =
     ((\<forall>k. stored_total_ok d k) \<and>
      (\<forall>r \<in> set (order_items d). orders d (oi_order_id r) \<noteq> None))"

section \<open>Example states\<close>

text \<open>
  One customer (Ana, user 10) with one order, 1, in a given status; a second customer
  (Bia, user 20) who owns nothing.
\<close>

definition ana :: customer where
  "ana = \<lparr>c_id = 1, user_id = Some 10, full_name = ''Ana'', email = ''ana@example.com''\<rparr>"

definition bia :: customer where
  "bia = \<lparr>c_id = 2, user_id = Some 20, full_name = ''Bia'', email = ''bia@example.com''\<rparr>"

definition order_of_ana :: "order_status \<Rightarrow> order" where
  "order_of_ana st = \<lparr>customer_id = 1, status = st, total_cents = 0\<rparr>"

definition status_db :: "order_status \<Rightarrow> db" where
  "status_db st =
     \<lparr>customers = [ana, bia], products = Map.empty, orders = [1 \<mapsto> order_of_ana st],
      order_items = [], mail_queue = [], mail_queue_seq = 5\<rparr>"

text \<open>
  A shop with two products: product 1 at 500 with 3 in stock, product 2 at 300 with 1 in
  stock. No order yet.
\<close>

definition shop_db :: db where
  "shop_db =
     \<lparr>customers = [ana, bia],
      products = [1 \<mapsto> \<lparr>price_cents = 500, stock = 3, active = True\<rparr>,
                  2 \<mapsto> \<lparr>price_cents = 300, stock = 1, active = True\<rparr>],
      orders = Map.empty, order_items = [], mail_queue = [], mail_queue_seq = 0\<rparr>"

definition line :: "uuid \<Rightarrow> int \<Rightarrow> item" where
  "line pid q = \<lparr>j_product_id = JValue pid, j_quantity = JValue q\<rparr>"

text \<open>The shop after Ana's order 7 of two of product 1 and one of product 2.\<close>

definition placed_db :: db where
  "placed_db =
     \<lparr>customers = [ana, bia],
      products = [1 \<mapsto> \<lparr>price_cents = 500, stock = 1, active = True\<rparr>,
                  2 \<mapsto> \<lparr>price_cents = 300, stock = 0, active = True\<rparr>],
      orders = [7 \<mapsto> \<lparr>customer_id = 1, status = Pending, total_cents = 1300\<rparr>],
      order_items =
        [\<lparr>oi_order_id = 7, oi_product_id = 1, quantity = 2, unit_price_cents = 500\<rparr>,
         \<lparr>oi_order_id = 7, oi_product_id = 2, quantity = 1, unit_price_cents = 300\<rparr>],
      mail_queue = [], mail_queue_seq = 0\<rparr>"

definition last_unit_a :: call where
  "last_unit_a = \<lparr>gen_uuid = 7, caller = Some 10, call_items = [line 2 1]\<rparr>"

definition last_unit_b :: call where
  "last_unit_b = \<lparr>gen_uuid = 8, caller = Some 20, call_items = [line 2 1]\<rparr>"

definition two_then_zero :: call where
  "two_then_zero = \<lparr>gen_uuid = 7, caller = Some 10, call_items = [line 1 2, line 2 0]\<rparr>"

text \<open>
  The shop inside the call \<open>two_then_zero\<close>, when the loop has placed its first item:
  order 7 exists, two of product 1 are reserved.
\<close>

definition in_flight_db :: db where
  "in_flight_db =
     \<lparr>customers = [ana, bia],
      products = [2 \<mapsto> \<lparr>price_cents = 300, stock = 1, active = True\<rparr>,
                  1 \<mapsto> \<lparr>price_cents = 500, stock = 1, active = True\<rparr>],
      orders = [7 \<mapsto> \<lparr>customer_id = 1, status = Pending, total_cents = 1000\<rparr>],
      order_items =
        [\<lparr>oi_order_id = 7, oi_product_id = 1, quantity = 2, unit_price_cents = 500\<rparr>],
      mail_queue = [], mail_queue_seq = 0\<rparr>"

text \<open>The same shop after the price of product 1 went from 500 to 999.\<close>

definition repriced_db :: db where
  "repriced_db =
     \<lparr>customers = [ana, bia],
      products = [2 \<mapsto> \<lparr>price_cents = 300, stock = 0, active = True\<rparr>,
                  1 \<mapsto> \<lparr>price_cents = 999, stock = 1, active = True\<rparr>],
      orders = [7 \<mapsto> \<lparr>customer_id = 1, status = Pending, total_cents = 1300\<rparr>],
      order_items =
        [\<lparr>oi_order_id = 7, oi_product_id = 1, quantity = 2, unit_price_cents = 500\<rparr>,
         \<lparr>oi_order_id = 7, oi_product_id = 2, quantity = 1, unit_price_cents = 300\<rparr>],
      mail_queue = [], mail_queue_seq = 0\<rparr>"

text \<open>
  Two orders of Ana: order 1 holds one unit of product 1 at 500, order 2 is empty. Then
  the row is moved to order 2.
\<close>

definition two_orders_db :: db where
  "two_orders_db =
     \<lparr>customers = [ana, bia],
      products = [1 \<mapsto> \<lparr>price_cents = 500, stock = 3, active = True\<rparr>],
      orders = [1 \<mapsto> \<lparr>customer_id = 1, status = Pending, total_cents = 500\<rparr>,
                2 \<mapsto> \<lparr>customer_id = 1, status = Pending, total_cents = 0\<rparr>],
      order_items =
        [\<lparr>oi_order_id = 1, oi_product_id = 1, quantity = 1, unit_price_cents = 500\<rparr>],
      mail_queue = [], mail_queue_seq = 0\<rparr>"

definition moved_db :: db where
  "moved_db =
     \<lparr>customers = [ana, bia],
      products = [1 \<mapsto> \<lparr>price_cents = 500, stock = 3, active = True\<rparr>],
      orders = [1 \<mapsto> \<lparr>customer_id = 1, status = Pending, total_cents = 500\<rparr>,
                2 \<mapsto> \<lparr>customer_id = 1, status = Pending, total_cents = 500\<rparr>],
      order_items =
        [\<lparr>oi_order_id = 2, oi_product_id = 1, quantity = 1, unit_price_cents = 500\<rparr>],
      mail_queue = [], mail_queue_seq = 0\<rparr>"

text \<open>
  A queue of three jobs, the last one sent before; a mail API that refuses the first
  request of the run and accepts the others.
\<close>

definition job :: "nat \<Rightarrow> string \<Rightarrow> nat option \<Rightarrow> queue_row" where
  "job n st t =
     \<lparr>q_id = n, q_order_id = 7, to_email = ''ana@example.com'',
      payload = [(''customer_name'', ''Ana'')], q_status = st, processed_at = t\<rparr>"

definition mail_q :: "queue_row list" where
  "mail_q = [job 1 ''pending'' None, job 2 ''pending'' None, job 3 ''sent'' (Some 50)]"

definition mail_env :: env where
  "mail_env =
     \<lparr>select_error = None, resend_api_key = True,
      resend = (\<lambda>n to v_order_id nome. n \<noteq> 0), update_ok = (\<lambda>n. True),
      clock = (\<lambda>n. 100 + n)\<rparr>"

text \<open>
  The same queue where every mail goes out and the database refuses the first update
  request of the run.
\<close>

definition lost_update_env :: env where
  "lost_update_env =
     \<lparr>select_error = None, resend_api_key = True,
      resend = (\<lambda>n to v_order_id nome. True), update_ok = (\<lambda>n. n \<noteq> 0),
      clock = (\<lambda>n. 100 + n)\<rparr>"

section \<open>Status transitions\<close>

lemma update_order_status_no_paid:
  assumes "orders d oid = Some ord" "\<not> (nxt = Paid \<and> status ord \<noteq> Paid)"
  shows "update_order_status d oid nxt =
           Inr (d\<lparr>orders := (orders d)(oid \<mapsto> ord\<lparr>status := nxt\<rparr>)\<rparr>)"
  using assms by (auto simp: update_order_status_def enqueue_order_confirmation_def Let_def)

lemma update_order_status_into_paid:
  assumes "orders d oid = Some ord" "status ord \<noteq> Paid"
    and "find (\<lambda>c. c_id c = customer_id ord) (customers d) = Some c"
  shows "update_order_status d oid Paid =
           Inr (d\<lparr>orders := (orders d)(oid \<mapsto> ord\<lparr>status := Paid\<rparr>),
                  mail_queue := mail_queue d @
                    [\<lparr>q_id = mail_queue_seq d, q_order_id = oid, to_email = email c,
                      payload = [(''customer_name'', full_name c)],
                      q_status = ''pending'', processed_at = None\<rparr>],
                  mail_queue_seq := Suc (mail_queue_seq d)\<rparr>)"
  using assms by (simp add: update_order_status_def enqueue_order_confirmation_def Let_def)

lemma update_order_status_error:
  "update_order_status d oid nxt = Inl e \<Longrightarrow> e = NotNullViolation"
  by (auto simp: update_order_status_def enqueue_order_confirmation_def Let_def
           split: option.splits if_splits)

text \<open>
  C3, as amended. The function holds no transition graph: for a caller who is not the
  owner of the order, every pair of a current and a requested status succeeds and leaves
  the order with the requested status, provided the order's customer row exists (the
  foreign key of orders.customer_id).
\<close>

theorem privileged_any_transition:
  assumes "orders d oid = Some ord"
    and "\<not> is_owner d v_user (customer_id ord)"
    and "find (\<lambda>c. c_id c = customer_id ord) (customers d) = Some c"
  shows "\<exists>d'. set_order_status d v_user oid nxt = Inr d' \<and>
              orders d' oid = Some (ord\<lparr>status := nxt\<rparr>)"
proof (cases "nxt = Paid \<and> status ord \<noteq> Paid")
  case True
  then show ?thesis
    using assms update_order_status_into_paid [OF assms(1) _ assms(3)]
    by (simp add: set_order_status_def)
next
  case False
  then show ?thesis
    using assms update_order_status_no_paid [OF assms(1) False]
    by (simp add: set_order_status_def)
qed

theorem privileged_any_transition_witness:
  "orders (status_db Delivered) 1 = Some (order_of_ana Delivered) \<and>
   \<not> is_owner (status_db Delivered) None (customer_id (order_of_ana Delivered)) \<and>
   find (\<lambda>c. c_id c = customer_id (order_of_ana Delivered)) (customers (status_db Delivered))
     = Some ana \<and>
   (\<exists>d'. set_order_status (status_db Delivered) None 1 Pending = Inr d' \<and>
         orders d' 1 = Some ((order_of_ana Delivered)\<lparr>status := Pending\<rparr>))"
  using privileged_any_transition [of "status_db Delivered" 1 "order_of_ana Delivered" None ana Pending]
  by (simp add: status_db_def order_of_ana_def ana_def bia_def is_owner_def)

text \<open>
  C3, as stated, fails: delivered to pending is not an edge of the graph, and a caller
  without identity (the service role) moves the order there.
\<close>

theorem invalid_transition_counterexample:
  "set_order_status (status_db Delivered) None 1 Pending = Inr (status_db Pending)"
  by (simp add: set_order_status_def update_order_status_def enqueue_order_confirmation_def
        status_db_def order_of_ana_def is_owner_def)

text \<open>
  C4. With the order found, the call answers Forbidden exactly when the caller owns the
  order and the request is not the cancellation of a pending order. Every caller who is
  not the owner, authenticated or not, runs the bare update statement, whichever the
  current and the requested status are; the update, when it returns, leaves the order
  with the requested status.
\<close>

theorem restriction_applies_to_owner_only:
  assumes "orders d oid = Some ord"
  shows "(set_order_status d v_user oid nxt = Inl Forbidden \<longleftrightarrow>
            is_owner d v_user (customer_id ord) \<and> (nxt \<noteq> Canceled \<or> status ord \<noteq> Pending)) \<and>
         (\<not> is_owner d v_user (customer_id ord) \<longrightarrow>
            set_order_status d v_user oid nxt = update_order_status d oid nxt) \<and>
         set_order_status d None oid nxt = update_order_status d oid nxt \<and>
         (\<forall>d'. update_order_status d oid nxt = Inr d' \<longrightarrow>
               orders d' oid = Some (ord\<lparr>status := nxt\<rparr>))"
proof -
  have no_forbidden: "update_order_status d oid st \<noteq> Inl Forbidden" for st
    using update_order_status_error [of d oid st Forbidden] by auto
  have cancel: "update_order_status d oid Canceled \<noteq> Inl Forbidden"
    by (rule no_forbidden)
  have a: "set_order_status d v_user oid nxt = Inl Forbidden \<longleftrightarrow>
        is_owner d v_user (customer_id ord) \<and> (nxt \<noteq> Canceled \<or> status ord \<noteq> Pending)"
    using assms no_forbidden [of nxt] cancel by (auto simp: set_order_status_def)
  have b: "\<not> is_owner d v_user (customer_id ord) \<longrightarrow>
        set_order_status d v_user oid nxt = update_order_status d oid nxt"
    using assms by (simp add: set_order_status_def)
  have c: "set_order_status d None oid nxt = update_order_status d oid nxt"
    using assms by (simp add: set_order_status_def is_owner_def)
  have e: "\<forall>d'. update_order_status d oid nxt = Inr d' \<longrightarrow>
        orders d' oid = Some (ord\<lparr>status := nxt\<rparr>)"
    using assms
    by (auto simp: update_order_status_def enqueue_order_confirmation_def Let_def
             split: option.splits if_splits)
  from a b c e show ?thesis by blast
qed

theorem restriction_applies_to_owner_only_witness:
  "orders (status_db Shipped) 1 = Some (order_of_ana Shipped) \<and>
   \<not> is_owner (status_db Shipped) (Some 20) (customer_id (order_of_ana Shipped)) \<and>
   set_order_status (status_db Shipped) (Some 20) 1 Pending = Inr (status_db Pending) \<and>
   set_order_status (status_db Shipped) (Some 10) 1 Pending = Inl Forbidden"
proof -
  have h: "orders (status_db Shipped) 1 = Some (order_of_ana Shipped)"
    by (simp add: status_db_def)
  have n: "\<not> is_owner (status_db Shipped) (Some 20) (customer_id (order_of_ana Shipped))"
    by (simp add: status_db_def order_of_ana_def ana_def bia_def is_owner_def)
  have o: "is_owner (status_db Shipped) (Some 10) (customer_id (order_of_ana Shipped))"
    by (simp add: status_db_def order_of_ana_def ana_def bia_def is_owner_def)
  have u: "update_order_status (status_db Shipped) 1 Pending = Inr (status_db Pending)"
    by (simp add: update_order_status_def enqueue_order_confirmation_def status_db_def
          order_of_ana_def)
  have "set_order_status (status_db Shipped) (Some 20) 1 Pending = Inr (status_db Pending)"
    using restriction_applies_to_owner_only [OF h, of "Some 20" Pending] n u by simp
  moreover have "set_order_status (status_db Shipped) (Some 10) 1 Pending = Inl Forbidden"
    using restriction_applies_to_owner_only [OF h, of "Some 10" Pending] o by simp
  ultimately show ?thesis using h n by simp
qed

text \<open>
  C5. When the caller owns the order, the call succeeds exactly for the request canceled
  on a pending order, which it leaves canceled; every other pair of a current and a
  requested status answers Forbidden, and an error carries no new state.
\<close>

theorem owner_only_cancels_pending:
  assumes "orders d oid = Some ord"
    and "is_owner d v_user (customer_id ord)"
  shows "set_order_status d v_user oid nxt =
           (if nxt = Canceled \<and> status ord = Pending
            then Inr (d\<lparr>orders := (orders d)(oid \<mapsto> ord\<lparr>status := Canceled\<rparr>)\<rparr>)
            else Inl Forbidden)"
proof (cases "nxt = Canceled \<and> status ord = Pending")
  case True
  then have "update_order_status d oid nxt =
      Inr (d\<lparr>orders := (orders d)(oid \<mapsto> ord\<lparr>status := nxt\<rparr>)\<rparr>)"
    using update_order_status_no_paid [OF assms(1), of nxt] by simp
  with True assms show ?thesis by (simp add: set_order_status_def)
next
  case False
  with assms show ?thesis by (auto simp: set_order_status_def)
qed

theorem owner_only_cancels_pending_witness:
  "orders (status_db Paid) 1 = Some (order_of_ana Paid) \<and>
   is_owner (status_db Paid) (Some 10) (customer_id (order_of_ana Paid)) \<and>
   set_order_status (status_db Paid) (Some 10) 1 Canceled = Inl Forbidden"
  using owner_only_cancels_pending [of "status_db Paid" 1 "order_of_ana Paid" "Some 10" Canceled]
  by (simp add: status_db_def order_of_ana_def ana_def bia_def is_owner_def)

text \<open>
  C7. A status update of an order whose customer row exists enqueues one job, last in the
  queue, exactly when the new status is paid and the old one was not; the job carries the
  order, the customer's email and the customer's name, and is pending. Every other
  update, paid to paid among them, leaves the queue as it was.
\<close>

theorem paid_transition_enqueues_once:
  assumes "orders d oid = Some ord"
    and "find (\<lambda>c. c_id c = customer_id ord) (customers d) = Some c"
  shows "\<exists>d'. update_order_status d oid nxt = Inr d' \<and>
           mail_queue d' =
             (if nxt = Paid \<and> status ord \<noteq> Paid
              then mail_queue d @
                     [\<lparr>q_id = mail_queue_seq d, q_order_id = oid, to_email = email c,
                       payload = [(''customer_name'', full_name c)],
                       q_status = ''pending'', processed_at = None\<rparr>]
              else mail_queue d)"
proof (cases "nxt = Paid \<and> status ord \<noteq> Paid")
  case True
  then show ?thesis
    using update_order_status_into_paid [OF assms(1) _ assms(2)] by simp
next
  case False
  then show ?thesis
    using update_order_status_no_paid [OF assms(1) False] by simp
qed

theorem paid_transition_enqueues_once_witness:
  "orders (status_db Pending) 1 = Some (order_of_ana Pending) \<and>
   find (\<lambda>c. c_id c = customer_id (order_of_ana Pending)) (customers (status_db Pending))
     = Some ana \<and>
   (\<exists>d'. update_order_status (status_db Pending) 1 Paid = Inr d' \<and>
         mail_queue d' =
           [\<lparr>q_id = 5, q_order_id = 1, to_email = ''ana@example.com'',
             payload = [(''customer_name'', ''Ana'')],
             q_status = ''pending'', processed_at = None\<rparr>])"
  using paid_transition_enqueues_once [of "status_db Pending" 1 "order_of_ana Pending" ana Paid]
  by (simp add: status_db_def order_of_ana_def ana_def bia_def)

section \<open>Placing orders\<close>

lemmas eval_defs =
  place_order_def place_item_def cast_uuid_def cast_int_def select_price_def reserve_stock_def
  insert_order_item_def row_ok_def update_order_total_def compute_order_total_def
  int4_mul_def int4_def rpc_place_order_def line_def shop_db_def ana_def bia_def

lemma update_order_total_frame:
  assumes "update_order_total d n old = Inr d'"
  shows "products d' = products d \<and> order_items d' = order_items d \<and>
         customers d' = customers d \<and> mail_queue d' = mail_queue d \<and>
         mail_queue_seq d' = mail_queue_seq d"
  using assms
  by (auto simp: update_order_total_def split: option.splits sum.splits if_splits)

lemma insert_order_item_frame:
  assumes "insert_order_item d r = Inr d'"
  shows "products d' = products d \<and> order_items d' = order_items d @ [r] \<and>
         customers d' = customers d \<and> mail_queue d' = mail_queue d"
  using assms
    update_order_total_frame [of "d\<lparr>order_items := order_items d @ [r]\<rparr>" "Some r" None d']
  by (auto simp: insert_order_item_def split: option.splits)

lemma place_item_product:
  assumes "place_item d oid it = Inr d'" and "products d pid = Some p"
  shows "products d' pid = Some (p\<lparr>stock := stock p - requested pid [it]\<rparr>) \<and>
         0 \<le> requested pid [it] \<and> (requested pid [it] = 0 \<or> requested pid [it] \<le> stock p)"
  using assms
  by (auto simp: place_item_def cast_uuid_def cast_int_def reserve_stock_def
        split: jfield.splits option.splits if_splits sum.splits
        dest!: insert_order_item_frame)

lemma place_items_product:
  assumes "place_items d oid its = Inr d'" and "products d pid = Some p"
  shows "products d' pid = Some (p\<lparr>stock := stock p - requested pid its\<rparr>) \<and>
         (0 \<le> stock p \<longrightarrow> requested pid its \<le> stock p) \<and> 0 \<le> requested pid its"
  using assms
proof (induction its arbitrary: d p)
  case Nil
  then show ?case by simp
next
  case (Cons it its)
  from Cons.prems obtain d1 where s: "place_item d oid it = Inr d1"
    and r: "place_items d1 oid its = Inr d'"
    by (auto split: sum.splits)
  note h = place_item_product [OF s Cons.prems(2)]
  let ?p1 = "p\<lparr>stock := stock p - requested pid [it]\<rparr>"
  from Cons.IH [OF r] h
  have "products d' pid = Some (?p1\<lparr>stock := stock ?p1 - requested pid its\<rparr>) \<and>
        (0 \<le> stock ?p1 \<longrightarrow> requested pid its \<le> stock ?p1) \<and> 0 \<le> requested pid its"
    by blast
  moreover have "requested pid (it # its) = requested pid [it] + requested pid its" by simp
  ultimately show ?case using h by (auto simp: algebra_simps)
qed


lemma place_order_loop:
  assumes "find (\<lambda>c. user_id c = Some u) (customers d) = Some c" and "orders d nid = None"
  shows "place_order d nid (Some u) its =
           (case place_items
                   (d\<lparr>orders := (orders d)(nid \<mapsto>
                         \<lparr>customer_id = c_id c, status = Pending, total_cents = 0\<rparr>)\<rparr>) nid its of
              Inl e \<Rightarrow> Inl e
            | Inr d2 \<Rightarrow> Inr (d2, nid))"
  using assms by (simp add: place_order_def)

lemma place_order_Inr:
  assumes "place_order d nid u its = Inr (d1, oid)"
  shows "\<exists>c::customer. oid = nid \<and>
           place_items (d\<lparr>orders := (orders d)(nid \<mapsto>
                 \<lparr>customer_id = c_id c, status = Pending, total_cents = 0\<rparr>)\<rparr>) nid its = Inr d1"
proof (cases u)
  case None
  with assms show ?thesis by (simp add: place_order_def)
next
  case (Some v)
  show ?thesis
  proof (cases "find (\<lambda>c. user_id c = Some v) (customers d)")
    case None
    with assms Some show ?thesis by (simp add: place_order_def)
  next
    case c: (Some c)
    show ?thesis
    proof (cases "orders d nid")
      case None
      from assms show ?thesis
        unfolding Some place_order_loop [OF c None]
        by (auto split: sum.splits)
    next
      case (Some w)
      with assms c \<open>u = Some v\<close> show ?thesis by (simp add: place_order_def)
    qed
  qed
qed

lemma place_order_product:
  assumes "place_order d nid u its = Inr (d', oid)" and "products d pid = Some p"
  shows "products d' pid = Some (p\<lparr>stock := stock p - requested pid its\<rparr>) \<and>
         (0 \<le> stock p \<longrightarrow> requested pid its \<le> stock p) \<and> 0 \<le> requested pid its"
proof -
  from place_order_Inr [OF assms(1)] obtain c :: customer where
    l: "place_items (d\<lparr>orders := (orders d)(nid \<mapsto>
                 \<lparr>customer_id = c_id c, status = Pending, total_cents = 0\<rparr>)\<rparr>) nid its = Inr d'"
    by blast
  from place_items_product [OF l, of pid p] assms(2) show ?thesis by simp
qed

lemma rpc_place_order_product:
  assumes "products d pid = Some p" and "0 \<le> stock p"
  shows "\<exists>p'. products (fst (rpc_place_order d c)) pid = Some p' \<and>
           stock p' = stock p - reserved d pid [c] \<and> 0 \<le> stock p'"
proof (cases "place_order d (gen_uuid c) (caller c) (call_items c)")
  case (Inl e)
  then show ?thesis using assms by (simp add: rpc_place_order_def)
next
  case (Inr r)
  obtain d' oid where r: "r = (d', oid)" by (cases r)
  from place_order_product [OF Inr [unfolded r] assms(1)] assms(2) Inr r
  show ?thesis by (simp add: rpc_place_order_def)
qed

lemma place_items_append:
  "place_items d oid (pre @ post) =
     (case place_items d oid pre of Inl e \<Rightarrow> Inl e | Inr d1 \<Rightarrow> place_items d1 oid post)"
  by (induction pre arbitrary: d) (auto split: sum.splits)

lemma place_item_first_violation:
  "casts qty_opt \<Longrightarrow> spec_first_violation d pid_opt qty_opt = Some e \<Longrightarrow>
   place_item d oid \<lparr>j_product_id = field_of pid_opt, j_quantity = field_of qty_opt\<rparr> = Inl e"
  by (auto simp: spec_first_violation_def place_item_def field_of_def cast_uuid_def
        cast_int_def casts_def select_price_def reserve_stock_def
        split: option.splits if_splits)

text \<open>The casts come before the checks: a quantity out of range fails as such.\<close>

lemma place_item_out_of_range:
  "\<not> int4 q \<Longrightarrow>
   place_item d oid \<lparr>j_product_id = field_of pid_opt, j_quantity = JValue q\<rparr>
     = Inl NumericValueOutOfRange"
  by (simp add: place_item_def field_of_def cast_uuid_def cast_int_def split: option.splits)






lemma place_items_new_rows:
  assumes "place_items d oid its = Inr d'"
  shows "\<exists>rows. order_items d' = order_items d @ rows \<and>
           (\<forall>r \<in> set rows. oi_order_id r = oid \<and>
              (\<exists>p. products d (oi_product_id r) = Some p \<and> unit_price_cents r = price_cents p))"
  using assms
proof (induction its arbitrary: d)
  case Nil
  then show ?case by simp
next
  case (Cons it its)
  from Cons.prems obtain d1 where s: "place_item d oid it = Inr d1"
    and r: "place_items d1 oid its = Inr d'"
    by (auto split: sum.splits)
  from s obtain row p where row: "order_items d1 = order_items d @ [row]"
    "oi_order_id row = oid" "products d (oi_product_id row) = Some p"
    "unit_price_cents row = price_cents p"
    by (auto simp: place_item_def cast_uuid_def cast_int_def reserve_stock_def select_price_def
          split: jfield.splits option.splits if_splits sum.splits
          dest!: insert_order_item_frame)
  have price: "\<exists>p. products d k = Some p \<and> price_cents p1 = price_cents p"
    if "products d1 k = Some p1" for k p1
  proof (cases "products d k")
    case None
    with s that show ?thesis
      by (auto simp: place_item_def cast_uuid_def cast_int_def reserve_stock_def select_price_def
          split: jfield.splits option.splits if_splits sum.splits
          dest!: insert_order_item_frame)
  next
    case (Some p)
    from place_item_product [OF s Some] that show ?thesis using Some by auto
  qed
  from Cons.IH [OF r] obtain rows where rows: "order_items d' = order_items d1 @ rows"
    "\<forall>r \<in> set rows. oi_order_id r = oid \<and>
        (\<exists>p. products d1 (oi_product_id r) = Some p \<and> unit_price_cents r = price_cents p)"
    by blast
  have "order_items d' = order_items d @ (row # rows)" using row rows by simp
  moreover have "\<forall>r \<in> set (row # rows). oi_order_id r = oid \<and>
        (\<exists>p. products d (oi_product_id r) = Some p \<and> unit_price_cents r = price_cents p)"
    using row rows(2) price by fastforce
  ultimately show ?case by blast
qed

lemma place_order_rows:
  assumes "place_order d nid u its = Inr (d1, oid)"
  shows "\<exists>rows. order_items d1 = order_items d @ rows \<and>
           (\<forall>r \<in> set rows. oi_order_id r = oid \<and>
              (\<exists>p. products d (oi_product_id r) = Some p \<and> unit_price_cents r = price_cents p))"
proof -
  from place_order_Inr [OF assms] obtain c :: customer where o: "oid = nid"
    and l: "place_items (d\<lparr>orders := (orders d)(nid \<mapsto>
                 \<lparr>customer_id = c_id c, status = Pending, total_cents = 0\<rparr>)\<rparr>) nid its = Inr d1"
    by blast
  from place_items_new_rows [OF l] o show ?thesis by simp
qed

lemma update_product_price_frame:
  assumes "update_product_price d pid v = Inr d'"
  shows "order_items d' = order_items d \<and> orders d' = orders d"
  using assms by (auto simp: update_product_price_def split: option.splits if_splits)

text \<open>
  C1. Take any product with stock S >= 0 and any sequence of place_order calls. After the
  sequence the product is still there, its stock is S minus the quantities that the
  successful calls asked of it, and it is not negative. The reservation itself succeeds
  only when the stock is at least the quantity, and takes exactly the quantity.
\<close>

theorem stock_never_negative:
  assumes "products d pid = Some p" and "0 \<le> stock p"
  shows "(\<exists>p'. products (run_calls d cs) pid = Some p' \<and>
            stock p' = stock p - reserved d pid cs \<and> 0 \<le> stock p') \<and>
         (\<forall>q d1. reserve_stock d pid q = Some d1 \<longrightarrow>
            q \<le> stock p \<and> products d1 pid = Some (p\<lparr>stock := stock p - q\<rparr>))"
proof -
  have "\<exists>p'. products (run_calls d cs) pid = Some p' \<and>
            stock p' = stock p - reserved d pid cs \<and> 0 \<le> stock p'"
    using assms
  proof (induction cs arbitrary: d p)
    case Nil
    then show ?case by simp
  next
    case (Cons c cs)
    from rpc_place_order_product [OF Cons.prems, of c]
    obtain p1 where p1: "products (fst (rpc_place_order d c)) pid = Some p1"
      and s1: "stock p1 = stock p - reserved d pid [c]" and n1: "0 \<le> stock p1"
      by blast
    from Cons.IH [OF p1 n1] obtain p' where
      "products (run_calls (fst (rpc_place_order d c)) cs) pid = Some p'"
      "stock p' = stock p1 - reserved (fst (rpc_place_order d c)) pid cs" "0 \<le> stock p'"
      by blast
    with s1 show ?case by (simp split: sum.splits)
  qed
  moreover have "\<forall>q d1. reserve_stock d pid q = Some d1 \<longrightarrow>
            q \<le> stock p \<and> products d1 pid = Some (p\<lparr>stock := stock p - q\<rparr>)"
    using assms(1) by (auto simp: reserve_stock_def split: if_splits)
  ultimately show ?thesis by blast
qed

text \<open>
  Two calls for the last unit of product 2: the first takes it, the second fails, the
  stock ends at 0.
\<close>

theorem stock_never_negative_witness:
  "products shop_db 2 = Some \<lparr>price_cents = 300, stock = 1, active = True\<rparr> \<and>
   0 \<le> stock \<lparr>price_cents = 300, stock = 1, active = True\<rparr> \<and>
   snd (rpc_place_order (fst (rpc_place_order shop_db last_unit_a)) last_unit_b)
     = Inl InsufficientStock \<and>
   (\<exists>p'. products (run_calls shop_db [last_unit_a, last_unit_b]) 2 = Some p' \<and>
         stock p' = 0)"
proof -
  have h: "products shop_db 2 = Some \<lparr>price_cents = 300, stock = 1, active = True\<rparr>"
    by (simp add: shop_db_def)
  have r: "reserved shop_db 2 [last_unit_a, last_unit_b] = 1"
    by (simp add: eval_defs last_unit_a_def last_unit_b_def)
  have f: "snd (rpc_place_order (fst (rpc_place_order shop_db last_unit_a)) last_unit_b)
     = Inl InsufficientStock"
    by (simp add: eval_defs last_unit_a_def last_unit_b_def)
  from stock_never_negative [OF h, of "[last_unit_a, last_unit_b]"] r
  have "\<exists>p'. products (run_calls shop_db [last_unit_a, last_unit_b]) 2 = Some p' \<and>
         stock p' = 0"
    by auto
  with h f show ?thesis by simp
qed

text \<open>
  C2. A call that fails leaves the database as it was before the call: no order, no
  order item, no change of stock. And the call does fail, with that outcome, in each of
  these cases: there is no caller; the caller has no customer row; the items before one
  item have been placed (the order is created, their stock is reserved and their rows are
  written) and the processing of this item raises an error, whichever it is; in
  particular when this item, with fields that cast, violates a precondition in the state
  that the earlier items left: the quantity is absent or not positive, the product is
  absent or inactive, or the stock is below the quantity.
\<close>

theorem failed_call_changes_nothing:
  "(snd (rpc_place_order d c) = Inl e \<longrightarrow> fst (rpc_place_order d c) = d) \<and>
   (caller c = None \<longrightarrow> rpc_place_order d c = (d, Inl NotAuthenticated)) \<and>
   (caller c = Some u \<and> find (\<lambda>x. user_id x = Some u) (customers d) = None \<longrightarrow>
      rpc_place_order d c = (d, Inl CustomerNotFound)) \<and>
   (caller c = Some u \<and> find (\<lambda>x. user_id x = Some u) (customers d) = Some cu \<and>
    orders d (gen_uuid c) = None \<and>
    place_items (d\<lparr>orders := (orders d)(gen_uuid c \<mapsto>
                     \<lparr>customer_id = c_id cu, status = Pending, total_cents = 0\<rparr>)\<rparr>)
      (gen_uuid c) pre = Inr d1 \<longrightarrow>
      (call_items c = pre @ v_item # post \<and> place_item d1 (gen_uuid c) v_item = Inl e1 \<longrightarrow>
         rpc_place_order d c = (d, Inl e1)) \<and>
      (call_items c =
         pre @ \<lparr>j_product_id = field_of pid_opt, j_quantity = field_of qty_opt\<rparr> # post \<and>
       casts qty_opt \<and> spec_first_violation d1 pid_opt qty_opt = Some e2 \<longrightarrow>
         rpc_place_order d c = (d, Inl e2)))"
proof -
  have a: "snd (rpc_place_order d c) = Inl e \<longrightarrow> fst (rpc_place_order d c) = d"
    by (auto simp: rpc_place_order_def split: sum.splits)
  have b: "caller c = None \<longrightarrow> rpc_place_order d c = (d, Inl NotAuthenticated)"
    by (simp add: rpc_place_order_def place_order_def)
  have k: "caller c = Some u \<and> find (\<lambda>x. user_id x = Some u) (customers d) = None \<longrightarrow>
      rpc_place_order d c = (d, Inl CustomerNotFound)"
    by (simp add: rpc_place_order_def place_order_def)
  have l: "rpc_place_order d c = (d, Inl err)"
    if u: "caller c = Some u"
      and f: "find (\<lambda>x. user_id x = Some u) (customers d) = Some cu"
      and n: "orders d (gen_uuid c) = None"
      and p: "place_items (d\<lparr>orders := (orders d)(gen_uuid c \<mapsto>
                     \<lparr>customer_id = c_id cu, status = Pending, total_cents = 0\<rparr>)\<rparr>)
                (gen_uuid c) pre = Inr d1"
      and i: "call_items c = pre @ bad # post"
      and r: "place_item d1 (gen_uuid c) bad = Inl err"
    for bad err
    using p r
    by (simp add: rpc_place_order_def u i place_order_loop [OF f n] place_items_append)
  have m: "place_item d1 (gen_uuid c)
             \<lparr>j_product_id = field_of pid_opt, j_quantity = field_of qty_opt\<rparr> = Inl e2"
    if "casts qty_opt" "spec_first_violation d1 pid_opt qty_opt = Some e2"
    using that by (rule place_item_first_violation)
  from a b k l [of v_item e1]
    l [of "\<lparr>j_product_id = field_of pid_opt, j_quantity = field_of qty_opt\<rparr>" e2] m
  show ?thesis by blast
qed

text \<open>
  Two of product 1, then a quantity 0 of product 2. When the second item fails the loop
  has created order 7, written the first row and taken two units of product 1; the call
  fails as invalid quantity and leaves the shop untouched.
\<close>

theorem failed_call_changes_nothing_witness:
  "caller two_then_zero = Some 10 \<and>
   find (\<lambda>x. user_id x = Some 10) (customers shop_db) = Some ana \<and>
   orders shop_db (gen_uuid two_then_zero) = None \<and>
   place_items
     (shop_db\<lparr>orders := (orders shop_db)(gen_uuid two_then_zero \<mapsto>
         \<lparr>customer_id = c_id ana, status = Pending, total_cents = 0\<rparr>)\<rparr>)
     (gen_uuid two_then_zero) [line 1 2] = Inr in_flight_db \<and>
   call_items two_then_zero = [line 1 2] @ line 2 0 # [] \<and>
   place_item in_flight_db (gen_uuid two_then_zero) (line 2 0) = Inl InvalidQuantity \<and>
   casts (Some 0) \<and>
   spec_first_violation in_flight_db (Some 2) (Some 0) = Some InvalidQuantity \<and>
   map_option stock (products in_flight_db 1) = Some 1 \<and>
   map_option stock (products shop_db 1) = Some 3 \<and>
   rpc_place_order shop_db two_then_zero = (shop_db, Inl InvalidQuantity)"
proof -
  have u: "caller two_then_zero = Some 10"
    by (simp add: two_then_zero_def)
  have f: "find (\<lambda>x. user_id x = Some 10) (customers shop_db) = Some ana"
    by (simp add: shop_db_def ana_def)
  have n: "orders shop_db (gen_uuid two_then_zero) = None"
    by (simp add: shop_db_def two_then_zero_def)
  have p: "place_items
     (shop_db\<lparr>orders := (orders shop_db)(gen_uuid two_then_zero \<mapsto>
         \<lparr>customer_id = c_id ana, status = Pending, total_cents = 0\<rparr>)\<rparr>)
     (gen_uuid two_then_zero) [line 1 2] = Inr in_flight_db"
    by (simp add: eval_defs two_then_zero_def in_flight_db_def)
  have i: "call_items two_then_zero = [line 1 2] @ line 2 0 # []"
    by (simp add: two_then_zero_def)
  have r: "place_item in_flight_db (gen_uuid two_then_zero) (line 2 0) = Inl InvalidQuantity"
    by (simp add: eval_defs two_then_zero_def in_flight_db_def)
  have s1: "map_option stock (products in_flight_db 1) = Some 1"
    by (simp add: in_flight_db_def)
  have s3: "map_option stock (products shop_db 1) = Some 3"
    by (simp add: shop_db_def)
  have q: "casts (Some 0)"
    by (simp add: casts_def int4_def)
  have v: "spec_first_violation in_flight_db (Some 2) (Some 0) = Some InvalidQuantity"
    by (simp add: spec_first_violation_def)
  have i': "call_items two_then_zero =
      [line 1 2] @ \<lparr>j_product_id = field_of (Some 2), j_quantity = field_of (Some 0)\<rparr> # []"
    by (simp add: two_then_zero_def line_def field_of_def)
  note t = failed_call_changes_nothing
    [where d = shop_db and c = two_then_zero and u = 10 and cu = ana
       and pre = "[line 1 2]" and ?d1.0 = in_flight_db and v_item = "line 2 0"
       and post = "[]" and ?e1.0 = InvalidQuantity
       and pid_opt = "Some 2" and qty_opt = "Some 0" and ?e2.0 = InvalidQuantity]
  from t u f n p i r
  have "rpc_place_order shop_db two_then_zero = (shop_db, Inl InvalidQuantity)"
    by blast
  moreover from t u f n p i' q v
  have "rpc_place_order shop_db two_then_zero = (shop_db, Inl InvalidQuantity)"
    by blast
  ultimately show ?thesis using u f n p i r q v s1 s3 by simp
qed



text \<open>
  C8. Every row that a successful place_order adds belongs to the new order and records
  the price that its product had when the order was placed. A later change of a
  product's price leaves the order items, the orders with their stored totals, and the
  total that compute_order_total returns, as they were.
\<close>

theorem unit_price_is_snapshot:
  assumes "place_order d nid u its = Inr (d1, oid)"
    and "update_product_price d1 pid v = Inr d2"
  shows "order_items d2 = order_items d1 \<and> orders d2 = orders d1 \<and>
         compute_order_total d2 oid = compute_order_total d1 oid \<and>
         (\<exists>rows. order_items d2 = order_items d @ rows \<and>
            (\<forall>r \<in> set rows. oi_order_id r = oid \<and>
               (\<exists>p. products d (oi_product_id r) = Some p \<and>
                    unit_price_cents r = price_cents p)))"
proof -
  note f = update_product_price_frame [OF assms(2)]
  from place_order_rows [OF assms(1)] f show ?thesis
    by (simp add: compute_order_total_def)
qed

text \<open>
  Ana's order of two at 500 and one at 300, then product 1 goes to 999: the rows and the
  total of 1300 stay.
\<close>

theorem unit_price_is_snapshot_witness:
  "place_order shop_db 7 (Some 10) [line 1 2, line 2 1] = Inr (placed_db, 7) \<and>
   update_product_price placed_db 1 999 = Inr repriced_db \<and>
   map unit_price_cents (order_items repriced_db) = [500, 300] \<and>
   map_option total_cents (orders repriced_db 7) = Some 1300 \<and>
   compute_order_total repriced_db 7 = Inr 1300"
proof -
  have a: "place_order shop_db 7 (Some 10) [line 1 2, line 2 1] = Inr (placed_db, 7)"
    by (simp add: eval_defs placed_db_def)
  have b: "update_product_price placed_db 1 999 = Inr repriced_db"
    by (simp add: update_product_price_def placed_db_def repriced_db_def ana_def bia_def)
  have i: "map unit_price_cents (order_items placed_db) = [500, 300]"
    by (simp add: placed_db_def)
  have t: "map_option total_cents (orders placed_db 7) = Some 1300"
    by (simp add: placed_db_def)
  have s: "compute_order_total placed_db 7 = Inr 1300"
    by (simp add: compute_order_total_def int4_mul_def int4_def placed_db_def)
  from unit_price_is_snapshot [OF a b] i t s a b show ?thesis by simp
qed

section \<open>Stored totals\<close>

text \<open>
  The stored totals stay consistent under every statement but one: the insert and the
  delete of an order item, the update of an order item that stays in its order,
  place_order and the update of a status. In a consistent state the stored total is the
  sum of quantity * unit_price_cents over the items of the order.
\<close>

lemma sum_lines_value:
  "sum_lines rs = Inr s \<Longrightarrow> s = (\<Sum>r\<leftarrow>rs. quantity r * unit_price_cents r)"
  by (induction rs arbitrary: s) (auto simp: int4_mul_def split: sum.splits if_splits)

lemma compute_order_total_value:
  "compute_order_total d k = Inr t \<Longrightarrow>
   t = (\<Sum>r\<leftarrow>filter (\<lambda>r. oi_order_id r = k) (order_items d). quantity r * unit_price_cents r)"
  by (auto simp: compute_order_total_def split: sum.splits if_splits dest: sum_lines_value)

lemma compute_order_total_cong:
  "filter (\<lambda>r. oi_order_id r = k) (order_items d') = filter (\<lambda>r. oi_order_id r = k) (order_items d)
   \<Longrightarrow> compute_order_total d' k = compute_order_total d k"
  by (simp add: compute_order_total_def)

lemma stored_total_ok_cong:
  "orders d' k = orders d k \<Longrightarrow> compute_order_total d' k = compute_order_total d k \<Longrightarrow>
   stored_total_ok d' k = stored_total_ok d k"
  by (simp add: stored_total_ok_def split: option.splits)

lemma trigger_restores:
  assumes t: "update_order_total d1 n old = Inr d'"
    and key: "(case n of Some x \<Rightarrow> Some (oi_order_id x) | None \<Rightarrow> map_option oi_order_id old) = Some k"
    and others: "\<forall>k'. k' \<noteq> k \<longrightarrow> stored_total_ok d1 k'"
  shows "(\<forall>k'. stored_total_ok d' k') \<and> order_items d' = order_items d1 \<and>
         (\<forall>k'. orders d' k' = None \<longleftrightarrow> orders d1 k' = None)"
proof (cases "orders d1 k")
  case None
  with t key have "d' = d1" by (simp add: update_order_total_def)
  moreover have "stored_total_ok d1 k" using None by (simp add: stored_total_ok_def)
  ultimately show ?thesis using others by metis
next
  case (Some v_ord)
  with t key obtain tot where c: "compute_order_total d1 k = Inr tot"
    and d': "d' = d1\<lparr>orders := (orders d1)(k \<mapsto> v_ord\<lparr>total_cents := tot\<rparr>)\<rparr>"
    by (auto simp: update_order_total_def split: sum.splits if_splits)
  have i: "order_items d' = order_items d1" using d' by simp
  have "stored_total_ok d' k' " for k'
  proof (cases "k' = k")
    case True
    then show ?thesis using c d' by (simp add: stored_total_ok_def compute_order_total_def)
  next
    case False
    with others have "stored_total_ok d1 k'" by simp
    moreover have "orders d' k' = orders d1 k'" using False d' by simp
    moreover have "compute_order_total d' k' = compute_order_total d1 k'"
      using i by (simp add: compute_order_total_def)
    ultimately show ?thesis using stored_total_ok_cong [of d' k' d1] by simp
  qed
  with i d' Some show ?thesis by auto
qed

lemma insert_order_item_consistent:
  assumes "consistent d" and "insert_order_item d r = Inr d'"
  shows "consistent d'"
proof -
  let ?d1 = "d\<lparr>order_items := order_items d @ [r]\<rparr>"
  from assms(2) have ok: "row_ok d r = None" and t: "update_order_total ?d1 (Some r) None = Inr d'"
    by (auto simp: insert_order_item_def split: option.splits)
  from ok have fk: "orders d (oi_order_id r) \<noteq> None"
    by (auto simp: row_ok_def split: if_splits)
  have others: "\<forall>k'. k' \<noteq> oi_order_id r \<longrightarrow> stored_total_ok ?d1 k'"
  proof (intro allI impI)
    fix k' assume "k' \<noteq> oi_order_id r"
    then have "compute_order_total ?d1 k' = compute_order_total d k'"
      by (simp add: compute_order_total_def)
    then have "stored_total_ok ?d1 k' = stored_total_ok d k'"
      by (intro stored_total_ok_cong) simp_all
    with assms(1) show "stored_total_ok ?d1 k'" by (simp add: consistent_def)
  qed
  from trigger_restores [OF t _ others] fk assms(1) show ?thesis
    by (auto simp: consistent_def)
qed

lemma delete_order_item_consistent:
  assumes "consistent d" and "delete_order_item d i = Inr d'"
  shows "consistent d'"
proof (cases "length (order_items d) \<le> i")
  case True
  with assms show ?thesis by (simp add: delete_order_item_def)
next
  case False
  let ?old = "order_items d ! i"
  let ?d1 = "d\<lparr>order_items := take i (order_items d) @ drop (Suc i) (order_items d)\<rparr>"
  from assms(2) False have t: "update_order_total ?d1 None (Some ?old) = Inr d'"
    by (simp add: delete_order_item_def)
  have split: "order_items d = take i (order_items d) @ ?old # drop (Suc i) (order_items d)"
    using False by (simp add: id_take_nth_drop [symmetric])
  have f: "filter (\<lambda>r. oi_order_id r = k') (order_items ?d1) =
           filter (\<lambda>r. oi_order_id r = k') (order_items d)" if "k' \<noteq> oi_order_id ?old" for k'
    using that by (subst (3) split) simp
  have others: "\<forall>k'. k' \<noteq> oi_order_id ?old \<longrightarrow> stored_total_ok ?d1 k'"
  proof (intro allI impI)
    fix k' assume "k' \<noteq> oi_order_id ?old"
    from compute_order_total_cong [OF f [OF this]]
    have "stored_total_ok ?d1 k' = stored_total_ok d k'"
      by (intro stored_total_ok_cong) simp_all
    with assms(1) show "stored_total_ok ?d1 k'" by (simp add: consistent_def)
  qed
  have sub: "set (order_items ?d1) \<subseteq> set (order_items d)"
    using set_take_subset [of i "order_items d"] set_drop_subset [of "Suc i" "order_items d"]
    by auto
  from trigger_restores [OF t _ others] assms(1) sub show ?thesis
    by (auto simp: consistent_def)
qed

lemma update_order_item_consistent:
  assumes "consistent d" and "update_order_item d i r = Inr d'"
    and "i < length (order_items d) \<longrightarrow> oi_order_id r = oi_order_id (order_items d ! i)"
  shows "consistent d'"
proof (cases "length (order_items d) \<le> i")
  case True
  with assms show ?thesis by (simp add: update_order_item_def)
next
  case False
  let ?old = "order_items d ! i"
  let ?d1 = "d\<lparr>order_items := (order_items d)[i := r]\<rparr>"
  from assms(2) False have ok: "row_ok d r = None"
    and t: "update_order_total ?d1 (Some r) (Some ?old) = Inr d'"
    by (auto simp: update_order_item_def split: option.splits)
  from ok have fk: "orders d (oi_order_id r) \<noteq> None"
    by (auto simp: row_ok_def split: if_splits)
  have same: "oi_order_id r = oi_order_id ?old" using assms(3) False by simp
  have split: "order_items d = take i (order_items d) @ ?old # drop (Suc i) (order_items d)"
    using False by (simp add: id_take_nth_drop [symmetric])
  have upd: "(order_items d)[i := r] = take i (order_items d) @ r # drop (Suc i) (order_items d)"
    using False by (simp add: upd_conv_take_nth_drop)
  have f: "filter (\<lambda>r. oi_order_id r = k') (order_items ?d1) =
           filter (\<lambda>r. oi_order_id r = k') (order_items d)" if "k' \<noteq> oi_order_id r" for k'
    using that same by (subst (2) split) (simp add: upd)
  have others: "\<forall>k'. k' \<noteq> oi_order_id r \<longrightarrow> stored_total_ok ?d1 k'"
  proof (intro allI impI)
    fix k' assume "k' \<noteq> oi_order_id r"
    from compute_order_total_cong [OF f [OF this]]
    have "stored_total_ok ?d1 k' = stored_total_ok d k'"
      by (intro stored_total_ok_cong) simp_all
    with assms(1) show "stored_total_ok ?d1 k'" by (simp add: consistent_def)
  qed
  have sub: "set (order_items ?d1) \<subseteq> insert r (set (order_items d))"
    using set_update_subset_insert [of "order_items d" i r] by simp
  from trigger_restores [OF t _ others] assms(1) sub fk show ?thesis
    by (auto simp: consistent_def)
qed


lemma reserve_stock_consistent:
  "consistent d \<Longrightarrow> reserve_stock d pid q = Some d1 \<Longrightarrow> consistent d1"
  by (auto simp: reserve_stock_def consistent_def stored_total_ok_def compute_order_total_def
           split: option.splits if_splits)

lemma place_item_consistent:
  assumes "consistent d" and "place_item d oid it = Inr d'"
  shows "consistent d'"
proof -
  from assms(2) obtain d1 pid q r where "reserve_stock d pid q = Some d1"
    and "insert_order_item d1 r = Inr d'"
    by (auto simp: place_item_def split: sum.splits option.splits if_splits)
  with assms(1) show ?thesis
    using reserve_stock_consistent insert_order_item_consistent by blast
qed

lemma place_items_consistent:
  "consistent d \<Longrightarrow> place_items d oid its = Inr d' \<Longrightarrow> consistent d'"
  by (induction its arbitrary: d) (auto split: sum.splits dest: place_item_consistent)

lemma new_order_consistent:
  assumes "consistent d" and "orders d nid = None"
  shows "consistent (d\<lparr>orders := (orders d)(nid \<mapsto>
            \<lparr>customer_id = cid, status = Pending, total_cents = 0\<rparr>)\<rparr>)"
proof -
  let ?d0 = "d\<lparr>orders := (orders d)(nid \<mapsto>
            \<lparr>customer_id = cid, status = Pending, total_cents = 0\<rparr>)\<rparr>"
  have "filter (\<lambda>r. oi_order_id r = nid) (order_items d) = []"
    using assms by (auto simp: consistent_def filter_empty_conv)
  then have n: "stored_total_ok ?d0 nid"
    by (simp add: stored_total_ok_def compute_order_total_def int4_def)
  have "stored_total_ok ?d0 k" for k
  proof (cases "k = nid")
    case True
    with n show ?thesis by simp
  next
    case False
    then have "stored_total_ok ?d0 k = stored_total_ok d k"
      by (intro stored_total_ok_cong) (simp_all add: compute_order_total_def)
    with assms(1) show ?thesis by (simp add: consistent_def)
  qed
  with assms(1) show ?thesis by (auto simp: consistent_def)
qed

lemma place_order_consistent:
  assumes "consistent d" and "place_order d nid u its = Inr (d', oid)"
  shows "consistent d'"
proof -
  from place_order_Inr [OF assms(2)] obtain c :: customer where
    l: "place_items (d\<lparr>orders := (orders d)(nid \<mapsto>
                 \<lparr>customer_id = c_id c, status = Pending, total_cents = 0\<rparr>)\<rparr>) nid its = Inr d'"
    by blast
  have "orders d nid = None"
    using assms(2) by (auto simp: place_order_def split: option.splits)
  from new_order_consistent [OF assms(1) this] l show ?thesis
    by (rule place_items_consistent)
qed

lemma update_order_status_consistent:
  assumes "consistent d" and "update_order_status d oid nxt = Inr d'"
  shows "consistent d'"
proof -
  have "stored_total_ok d' k" for k
  proof -
    have "stored_total_ok d k" using assms(1) by (simp add: consistent_def)
    with assms(2) show ?thesis
      by (auto simp: update_order_status_def enqueue_order_confirmation_def Let_def
            stored_total_ok_def compute_order_total_def split: option.splits if_splits)
  qed
  moreover have "\<forall>r \<in> set (order_items d'). orders d' (oi_order_id r) \<noteq> None"
    using assms
    by (auto simp: update_order_status_def enqueue_order_confirmation_def Let_def
            consistent_def split: option.splits if_splits)
  ultimately show ?thesis by (simp add: consistent_def)
qed

lemma consistent_total:
  assumes "consistent d" and "orders d k = Some v_ord"
  shows "compute_order_total d k = Inr (total_cents v_ord) \<and>
         total_cents v_ord =
           (\<Sum>r\<leftarrow>filter (\<lambda>r. oi_order_id r = k) (order_items d). quantity r * unit_price_cents r)"
proof -
  from assms have "compute_order_total d k = Inr (total_cents v_ord)"
    by (auto simp: consistent_def stored_total_ok_def split: option.splits)
  with compute_order_total_value [OF this] show ?thesis by simp
qed

text \<open>
  C6 fails on an update that moves an order item to another order: the trigger
  recomputes the order that \<open>coalesce(new.order_id, old.order_id)\<close> names, which is the
  new one, and the order that the item left keeps a total that counts it. Order 1 holds
  one item of 500 and order 2 is empty, both totals right; the item moves to order 2;
  order 1 is left with a stored total of 500 over no item, where compute_order_total
  returns 0.
\<close>

theorem moved_line_leaves_stale_total:
  "stored_total_ok two_orders_db 1 \<and> stored_total_ok two_orders_db 2 \<and>
   update_order_item two_orders_db 0
     \<lparr>oi_order_id = 2, oi_product_id = 1, quantity = 1, unit_price_cents = 500\<rparr>
     = Inr moved_db \<and>
   map_option total_cents (orders moved_db 1) = Some 500 \<and>
   compute_order_total moved_db 1 = Inr 0 \<and>
   \<not> stored_total_ok moved_db 1"
  by (simp add: stored_total_ok_def update_order_item_def row_ok_def update_order_total_def
        compute_order_total_def int4_mul_def int4_def two_orders_db_def moved_db_def)

section \<open>Draining the notification queue\<close>

lemma process_step:
  "process e n (row # rows) q =
     process e (Suc n) rows (update_row e n (q_id row) (outcome e n row) q)"
  by (simp add: outcome_def)

lemma length_update_row: "length (update_row e n rid st q) = length q"
  by (simp add: update_row_def mark_def)

lemma length_process: "length (process e n rows q) = length q"
  by (induction rows arbitrary: n q) (simp_all add: length_update_row)

lemma update_row_nth:
  "j < length q \<Longrightarrow>
   update_row e n rid st q ! j =
     (if update_ok e n \<and> q_id (q ! j) = rid
      then (q ! j)\<lparr>q_status := st, processed_at := Some (clock e n)\<rparr>
      else q ! j)"
  by (simp add: update_row_def mark_def)

lemma process_other:
  "j < length q \<Longrightarrow> q_id (q ! j) \<notin> q_id ` set rows \<Longrightarrow> process e n rows q ! j = q ! j"
proof (induction rows arbitrary: n q)
  case Nil
  then show ?case by simp
next
  case (Cons row rows)
  let ?q1 = "update_row e n (q_id row) (outcome e n row) q"
  have "?q1 ! j = q ! j" using Cons.prems by (simp add: update_row_nth)
  moreover have "j < length ?q1" using Cons.prems by (simp add: length_update_row)
  ultimately have "process e (Suc n) rows ?q1 ! j = q ! j"
    using Cons.IH [of ?q1 "Suc n"] Cons.prems by simp
  then show ?case by (simp only: process_step)
qed

text \<open>
  The row of the queue that iteration i claimed: written by its own update request when
  the database executes it, and by no other iteration.
\<close>

lemma process_claimed:
  "j < length q \<Longrightarrow> distinct (map q_id rows) \<Longrightarrow> i < length rows \<Longrightarrow>
   q_id (q ! j) = q_id (rows ! i) \<Longrightarrow>
   process e n rows q ! j =
     (if update_ok e (n + i)
      then (q ! j)\<lparr>q_status := outcome e (n + i) (rows ! i),
                    processed_at := Some (clock e (n + i))\<rparr>
      else q ! j)"
proof (induction rows arbitrary: n q i)
  case Nil
  then show ?case by simp
next
  case (Cons row rows)
  let ?q1 = "update_row e n (q_id row) (outcome e n row) q"
  have len: "j < length ?q1" using Cons.prems by (simp add: length_update_row)
  show ?case
  proof (cases i)
    case 0
    then have v: "?q1 ! j =
        (if update_ok e n
         then (q ! j)\<lparr>q_status := outcome e n row, processed_at := Some (clock e n)\<rparr>
         else q ! j)"
      using Cons.prems by (simp add: update_row_nth)
    then have "q_id (?q1 ! j) = q_id row"
      using Cons.prems 0 by (simp split: if_splits)
    then have "q_id (?q1 ! j) \<notin> q_id ` set rows"
      using Cons.prems by simp
    from process_other [OF len this, of e "Suc n"] v 0 show ?thesis
      by (simp only: process_step) simp
  next
    case (Suc i')
    have "rows ! i' \<in> set rows"
      using Cons.prems Suc by simp
    then have m: "q_id (rows ! i') \<in> q_id ` set rows"
      by (rule imageI)
    have "q_id row \<notin> q_id ` set rows"
      using Cons.prems by simp
    with m have "q_id (rows ! i') \<noteq> q_id row"
      by metis
    then have ne: "q_id (q ! j) \<noteq> q_id row"
      using Cons.prems Suc by simp
    then have same: "?q1 ! j = q ! j" using Cons.prems by (simp add: update_row_nth)
    have "process e (Suc n) rows ?q1 ! j =
        (if update_ok e (Suc n + i')
         then (?q1 ! j)\<lparr>q_status := outcome e (Suc n + i') (rows ! i'),
                          processed_at := Some (clock e (Suc n + i'))\<rparr>
         else ?q1 ! j)"
      using Cons.IH [OF len, of i' "Suc n"] Cons.prems Suc same by simp
    then show ?thesis using same Suc by (simp only: process_step) simp
  qed
qed

lemma pendentes_props:
  "length (pendentes q) \<le> 10 \<and> set (pendentes q) \<subseteq> set q \<and>
   (\<forall>r \<in> set (pendentes q). q_status r = ''pending'')"
proof -
  have "set (pendentes q) \<subseteq> set (filter (\<lambda>r. q_status r = ''pending'') q)"
    unfolding pendentes_def by (rule set_take_subset)
  then show ?thesis by (auto simp: pendentes_def)
qed

lemma pendentes_distinct:
  "distinct (map q_id q) \<Longrightarrow> distinct (map q_id (pendentes q))"
  by (simp add: pendentes_def take_map [symmetric] distinct_map_filter)

text \<open>
  C10, as amended. When the select succeeds and the ids of the queue are distinct (the
  primary key), one run of the handler claims at most ten rows, all of them pending rows
  of the queue. The queue keeps its rows, and a row that was not claimed is untouched.
  The row claimed at iteration i, when the database executes the update request of that
  iteration, ends with status sent when its own delivery went through and error when it
  threw, and with the time of that iteration as processed_at, whatever happened to the
  deliveries and to the update requests of the other rows. The response is 200 whichever
  deliveries and whichever update requests failed.
\<close>

theorem drain_marks_each_claimed_job:
  assumes "select_error e = None" and "distinct (map q_id q)"
  shows "length (pendentes q) \<le> 10 \<and>
         (\<forall>r \<in> set (pendentes q). r \<in> set q \<and> q_status r = ''pending'') \<and>
         http_status (snd (handler e q)) = 200 \<and>
         length (fst (handler e q)) = length q \<and>
         (\<forall>j < length q.
            (q_id (q ! j) \<notin> q_id ` set (pendentes q) \<longrightarrow> fst (handler e q) ! j = q ! j) \<and>
            (\<forall>i < length (pendentes q).
               q_id (q ! j) = q_id (pendentes q ! i) \<and> update_ok e i \<longrightarrow>
               fst (handler e q) ! j =
                 (q ! j)\<lparr>q_status :=
                            (if sendEmail e i (to_email (pendentes q ! i))
                                  (q_order_id (pendentes q ! i)) (nomeCliente (pendentes q ! i))
                             then ''sent'' else ''error''),
                          processed_at := Some (clock e i)\<rparr>))"
proof -
  have h: "fst (handler e q) = process e 0 (pendentes q) q"
    using assms(1) by (simp add: handler_def)
  have a: "http_status (snd (handler e q)) = 200"
    using assms(1) by (simp add: handler_def)
  have b: "length (fst (handler e q)) = length q"
    unfolding h by (rule length_process)
  have c: "fst (handler e q) ! j = q ! j"
    if "j < length q" "q_id (q ! j) \<notin> q_id ` set (pendentes q)" for j
    unfolding h using that by (rule process_other)
  have d: "fst (handler e q) ! j =
      (q ! j)\<lparr>q_status :=
                 (if sendEmail e i (to_email (pendentes q ! i))
                       (q_order_id (pendentes q ! i)) (nomeCliente (pendentes q ! i))
                  then ''sent'' else ''error''),
               processed_at := Some (clock e i)\<rparr>"
    if "j < length q" "i < length (pendentes q)" "q_id (q ! j) = q_id (pendentes q ! i)"
      "update_ok e i" for i j
    unfolding h
    using process_claimed [OF that(1) pendentes_distinct [OF assms(2)] that(2) that(3), of e 0]
      that(4)
    by (simp add: outcome_def)
  from pendentes_props [of q] a b c d show ?thesis by blast
qed

text \<open>
  Every update request is executed. The first job is refused by the mail API and ends in
  error, the second is delivered and ends sent, the third was not pending and stays; the
  response is 200.
\<close>

theorem drain_marks_each_claimed_job_witness:
  "select_error mail_env = None \<and> distinct (map q_id mail_q) \<and>
   pendentes mail_q = [job 1 ''pending'' None, job 2 ''pending'' None] \<and>
   update_ok mail_env 0 \<and> update_ok mail_env 1 \<and>
   fst (handler mail_env mail_q) ! 0 = job 1 ''error'' (Some 100) \<and>
   fst (handler mail_env mail_q) ! 1 = job 2 ''sent'' (Some 101) \<and>
   fst (handler mail_env mail_q) ! 2 = job 3 ''sent'' (Some 50) \<and>
   http_status (snd (handler mail_env mail_q)) = 200"
proof -
  have s: "select_error mail_env = None"
    by (simp add: mail_env_def)
  have d: "distinct (map q_id mail_q)"
    by (simp add: mail_q_def job_def)
  have p: "pendentes mail_q = [job 1 ''pending'' None, job 2 ''pending'' None]"
    by (simp add: pendentes_def mail_q_def job_def)
  have u: "update_ok mail_env 0" "update_ok mail_env 1"
    by (simp_all add: mail_env_def)
  note t = drain_marks_each_claimed_job [OF s d]
  have l: "length mail_q = 3"
    by (simp add: mail_q_def)
  from t l have j0: "\<forall>i < length (pendentes mail_q).
      q_id (mail_q ! 0) = q_id (pendentes mail_q ! i) \<and> update_ok mail_env i \<longrightarrow>
      fst (handler mail_env mail_q) ! 0 =
        (mail_q ! 0)\<lparr>q_status :=
                        (if sendEmail mail_env i (to_email (pendentes mail_q ! i))
                              (q_order_id (pendentes mail_q ! i))
                              (nomeCliente (pendentes mail_q ! i))
                         then ''sent'' else ''error''),
                      processed_at := Some (clock mail_env i)\<rparr>"
    by simp
  from t l have j1: "\<forall>i < length (pendentes mail_q).
      q_id (mail_q ! 1) = q_id (pendentes mail_q ! i) \<and> update_ok mail_env i \<longrightarrow>
      fst (handler mail_env mail_q) ! 1 =
        (mail_q ! 1)\<lparr>q_status :=
                        (if sendEmail mail_env i (to_email (pendentes mail_q ! i))
                              (q_order_id (pendentes mail_q ! i))
                              (nomeCliente (pendentes mail_q ! i))
                         then ''sent'' else ''error''),
                      processed_at := Some (clock mail_env i)\<rparr>"
    by simp
  from t l have j2: "q_id (mail_q ! 2) \<notin> q_id ` set (pendentes mail_q) \<longrightarrow>
      fst (handler mail_env mail_q) ! 2 = mail_q ! 2"
    by simp
  have a: "fst (handler mail_env mail_q) ! 0 = job 1 ''error'' (Some 100)"
    using j0 [rule_format, of 0] unfolding p
    by (simp add: mail_q_def job_def sendEmail_def mail_env_def)
  have b: "fst (handler mail_env mail_q) ! 1 = job 2 ''sent'' (Some 101)"
    using j1 [rule_format, of 1] unfolding p
    by (simp add: mail_q_def job_def sendEmail_def mail_env_def)
  have c: "fst (handler mail_env mail_q) ! 2 = job 3 ''sent'' (Some 50)"
    using j2 unfolding p by (simp add: mail_q_def job_def)
  from t have r: "http_status (snd (handler mail_env mail_q)) = 200"
    by simp
  from s d p u a b c r show ?thesis by simp
qed

text \<open>
  C10, as stated, fails: the handler reads no result of its update requests. Here the
  first job is claimed and its mail goes out, the database refuses the update request,
  and the job is left pending without a processed time, under a response of 200.
\<close>

theorem lost_update_counterexample:
  "pendentes mail_q = [job 1 ''pending'' None, job 2 ''pending'' None] \<and>
   sendEmail lost_update_env 0 (to_email (job 1 ''pending'' None))
     (q_order_id (job 1 ''pending'' None)) (nomeCliente (job 1 ''pending'' None)) \<and>
   fst (handler lost_update_env mail_q) ! 0 = job 1 ''pending'' None \<and>
   fst (handler lost_update_env mail_q) ! 1 = job 2 ''sent'' (Some 101) \<and>
   http_status (snd (handler lost_update_env mail_q)) = 200"
  by (simp add: handler_def pendentes_def update_row_def mark_def sendEmail_def
        nomeCliente_def mail_q_def job_def lost_update_env_def)

end
